theory Spec2Isabelle
  imports Main
begin

section \<open>The node tree\<close>

text \<open>
  A key is a string or a number (React's \<open>Key\<close>); a number that is a key is an integer,
  and a text is the list of the code units of the JavaScript string. A variable that holds
  a key may also be \<open>undefined\<close> or \<open>null\<close>; \<open>truthy\<close> is JavaScript's conversion to a
  boolean, which the source applies to such variables (\<open>props.selectedKey && ...\<close>,
  \<open>if (focusedKey)\<close>).
\<close>

datatype Key = Str string | Num int

datatype js_key = Undefined | Null | Defined Key

fun truthy :: "js_key \<Rightarrow> bool" where
  "truthy Undefined = False"
| "truthy Null = False"
| "truthy (Defined (Str s)) = (s \<noteq> [])"
| "truthy (Defined (Num n)) = (n \<noteq> 0)"

text \<open>
  A node of the collection: the fields of \<open>Node<T>\<close> that the combo box state reads.
  \<open>node_type\<close> is the field \<open>type\<close>, a string that the source compares with
  \<open>'section'\<close>.
\<close>

datatype node =
  Node (key: Key) (node_type: string) (textValue: string) (hasChildNodes: bool)
       (childNodes: "node list")

text \<open>\<open>{...node}\<close> followed by an assignment to \<open>childNodes\<close> of the copy.\<close>

fun copy_with_childNodes :: "node \<Rightarrow> node list \<Rightarrow> node" where
  "copy_with_childNodes (Node k t txt h cs) filtered = Node k t txt h filtered"

section \<open>The filter\<close>

text \<open>
  The function \<open>filter\<close> of the source. The loop over \<open>nodes\<close> pushes to
  \<open>filteredNode\<close> in order, so the result of the loop is the pushed node followed by the
  result for the remaining nodes.
\<close>

fun filter_nodes :: "node list \<Rightarrow> (node \<Rightarrow> bool) \<Rightarrow> node list" where
  "filter_nodes [] filterFn = []"
| "filter_nodes (Node k t txt h cs # nodes) filterFn =
     (if t = ''section'' \<and> h then
        (let filtered = filter_nodes cs filterFn in
         if length filtered > 0
         then copy_with_childNodes (Node k t txt h cs) filtered # filter_nodes nodes filterFn
         else filter_nodes nodes filterFn)
      else if t \<noteq> ''section'' \<and> filterFn (Node k t txt h cs)
        then Node k t txt h cs # filter_nodes nodes filterFn
      else filter_nodes nodes filterFn)"

text \<open>
  The nodes of a tree in visiting order: each node of the list, a section followed by the
  nodes below it. Only sections carry children in the data model.
\<close>

fun nodes_of :: "node list \<Rightarrow> node list" where
  "nodes_of [] = []"
| "nodes_of (Node k t txt h cs # nodes) =
     Node k t txt h cs # (if t = ''section'' then nodes_of cs else []) @ nodes_of nodes"

section \<open>The filter on a store of objects\<close>

text \<open>
  The same function with the node objects in a store, so that copying a node and assigning
  to a field of an object are what they are in the source. An object is at an address of
  the store; its child nodes are addresses. The object spread \<open>{...node}\<close> puts a copy of
  the object at the next free address, and \<open>copyOfNode.childNodes = filtered\<close> writes the
  field of the object at the address of the copy. The arrays of addresses are values. The
  result is the new store and the addresses pushed to \<open>filteredNode\<close>; an address outside
  the store denotes no object, and there the function has no result.
\<close>

record obj =
  o_key :: Key
  o_type :: string
  o_textValue :: string
  o_hasChildNodes :: bool
  o_childNodes :: "nat list"

type_synonym store = "obj list"

partial_function (option) filter_store ::
  "store \<Rightarrow> nat list \<Rightarrow> (obj \<Rightarrow> bool) \<Rightarrow> (store \<times> nat list) option" where
  "filter_store st nodes filterFn =
     (case nodes of
        [] \<Rightarrow> Some (st, [])
      | a # rest \<Rightarrow>
          if a < length st then
            (let node = st ! a in
             if o_type node = ''section'' \<and> o_hasChildNodes node then
               (let copyOfNode = length st;
                    st1 = st @ [node];
                    copyOfChildNodes = o_childNodes (st1 ! copyOfNode)
                in Option.bind (filter_store st1 copyOfChildNodes filterFn)
                     (\<lambda>(st2, filtered).
                        if length filtered > 0 then
                          Option.bind
                            (filter_store
                               (st2[copyOfNode := (st2 ! copyOfNode)\<lparr>o_childNodes := filtered\<rparr>])
                               rest filterFn)
                            (\<lambda>(st3, filteredNode). Some (st3, copyOfNode # filteredNode))
                        else filter_store st2 rest filterFn))
             else if o_type node \<noteq> ''section'' \<and> filterFn node then
               Option.bind (filter_store st rest filterFn)
                 (\<lambda>(st1, filteredNode). Some (st1, a # filteredNode))
             else filter_store st rest filterFn)
          else None)"

declare filter_store.simps [code]

text \<open>
  The object at an address represents a node, and a list of addresses a list of nodes, when
  the fields are those of the node and the child addresses represent the child nodes; all
  addresses met are in the set \<open>S\<close>.
\<close>

fun rep :: "nat set \<Rightarrow> store \<Rightarrow> nat \<Rightarrow> node \<Rightarrow> bool"
  and reps :: "nat set \<Rightarrow> store \<Rightarrow> nat list \<Rightarrow> node list \<Rightarrow> bool" where
  "rep S st a (Node k t tv h ns) =
     (a \<in> S \<and> a < length st \<and> o_key (st ! a) = k \<and> o_type (st ! a) = t \<and>
      o_textValue (st ! a) = tv \<and> o_hasChildNodes (st ! a) = h \<and>
      reps S st (o_childNodes (st ! a)) ns)"
| "reps S st [] [] = True"
| "reps S st (a # as) (n # ns) = (rep S st a n \<and> reps S st as ns)"
| "reps S st [] (n # ns) = False"
| "reps S st (a # as) [] = False"

text \<open>Every object of the first store is in the second, at its address and as it was.\<close>

definition unchanged :: "store \<Rightarrow> store \<Rightarrow> bool" where
  "unchanged st st' \<longleftrightarrow> length st \<le> length st' \<and> (\<forall>b<length st. st' ! b = st ! b)"

text \<open>A predicate on objects and a predicate on nodes that agree on every object that
  represents a node.\<close>

definition agree :: "nat set \<Rightarrow> store \<Rightarrow> (obj \<Rightarrow> bool) \<Rightarrow> (node \<Rightarrow> bool) \<Rightarrow> bool" where
  "agree S st fo f \<longleftrightarrow> (\<forall>a n. rep S st a n \<longrightarrow> fo (st ! a) = f n)"

text \<open>
  What holds of the store and the addresses that the filter returns: the source store is
  unchanged, the addresses represent the given nodes, and an address returned is that of a
  new object when the object is a section and one of the given addresses when it is not.
\<close>

definition filter_post ::
  "nat set \<Rightarrow> store \<Rightarrow> nat list \<Rightarrow> node list \<Rightarrow> store \<Rightarrow> nat list \<Rightarrow> bool" where
  "filter_post S st as ns st' out \<longleftrightarrow>
     unchanged st st' \<and> reps (S \<union> {length st..<length st'}) st' out ns \<and>
     (\<forall>r\<in>set out. if o_type (st' ! r) = ''section'' then length st \<le> r else r \<in> set as)"

section \<open>Collections\<close>

text \<open>
  The two capabilities of a collection that the state reads through its fields: the key map
  (a JavaScript \<open>Map\<close>, iterated in insertion order, here the list of its entries) and the
  nodes that iterating the collection yields.
\<close>

record collection =
  keyMap :: "(Key \<times> node) list"
  iterable :: "node list"

text \<open>\<open>collection.getItem(key)\<close>: the key map's \<open>get\<close>; no entry has the key
  \<open>undefined\<close> or \<open>null\<close>.\<close>

fun getItem :: "collection \<Rightarrow> js_key \<Rightarrow> node option" where
  "getItem c (Defined k) = map_of (keyMap c) k"
| "getItem c Undefined = None"
| "getItem c Null = None"

text \<open>\<open>collection.size\<close>: the size of the key map.\<close>

definition size_of :: "collection \<Rightarrow> nat" where
  "size_of c = length (keyMap c)"

text \<open>
  Modelled from the spec: the constructor of the list collection, which the list state hook
  (not part of the sources at hand) applies to the node list. Every keyed node is entered in
  the key map in visiting order, an entry for a key that is already there replaces the node
  and keeps its place, and iterating the collection yields the nodes of the list.
\<close>

fun map_set :: "Key \<Rightarrow> node \<Rightarrow> (Key \<times> node) list \<Rightarrow> (Key \<times> node) list" where
  "map_set k n [] = [(k, n)]"
| "map_set k n ((k', n') # m) = (if k = k' then (k, n) # m else (k', n') # map_set k n m)"

definition ListCollection :: "node list \<Rightarrow> collection" where
  "ListCollection nodes =
     \<lparr>keyMap = foldl (\<lambda>m n. map_set (key n) n m) [] (nodes_of nodes), iterable = nodes\<rparr>"

section \<open>Properties and effects\<close>

text \<open>
  The properties of the hook that the state reads. A callback property is the flag whether
  the host supplied it; a call of a callback, or of an operation of a collaborating hook, is
  an effect, and an operation of the state returns the effects it performs in order.
\<close>

record props =
  selectedKey :: js_key
  defaultSelectedKey :: js_key
  inputValue :: "string option"
  defaultInputValue :: "string option"
  allowsCustomValue :: bool
  collator :: "string \<Rightarrow> string \<Rightarrow> int"
  onInputChange :: bool
  onSelectionChange :: bool
  onFilter :: bool

datatype effect =
    OnInputChange string
  | OnSelectionChange js_key
  | OnFilter "string option"
  | SetInputValue string
  | TriggerOpen "string option"
  | TriggerSetOpen bool
  | TriggerToggle

datatype error = Mismatch

section \<open>Input value and selected key\<close>

text \<open>The loop of \<open>computeKeyFromValue\<close> over the entries of the key map; \<open>break\<close>
  ends it at the first item whose text is the value.\<close>

fun computeKey_loop :: "string \<Rightarrow> (Key \<times> node) list \<Rightarrow> js_key" where
  "computeKey_loop val [] = Undefined"
| "computeKey_loop val ((itemKey, node) # entries) =
     (if node_type node \<noteq> ''section'' \<and> textValue node = val then Defined itemKey
      else computeKey_loop val entries)"

definition computeKeyFromValue :: "string \<Rightarrow> collection \<Rightarrow> js_key" where
  "computeKeyFromValue val c = computeKey_loop val (keyMap c)"

text \<open>\<open>props.selectedKey || computeKeyFromValue(inputValue, collection)\<close>\<close>

definition current_selectedKey :: "props \<Rightarrow> string \<Rightarrow> collection \<Rightarrow> js_key" where
  "current_selectedKey p inputVal c =
     (if truthy (selectedKey p) then selectedKey p else computeKeyFromValue inputVal c)"

text \<open>The check of the controlled pair at the start of the hook; a string is truthy when it
  is supplied and not empty.\<close>

definition check_mismatch :: "props \<Rightarrow> collection \<Rightarrow> error + unit" where
  "check_mismatch p c =
     (if truthy (selectedKey p) \<and> (case inputValue p of None \<Rightarrow> False | Some v \<Rightarrow> v \<noteq> [])
      then (let selectedItem = getItem c (selectedKey p);
                itemText = (case selectedItem of Some n \<Rightarrow> textValue n | None \<Rightarrow> [])
            in if Some itemText \<noteq> inputValue p then Inl Mismatch else Inr ())
      else Inr ())"

text \<open>The closure \<open>onInputChange\<close>, given the selected key of the render.\<close>

definition onInputChange_fn :: "props \<Rightarrow> collection \<Rightarrow> js_key \<Rightarrow> string \<Rightarrow> effect list" where
  "onInputChange_fn p c selKey val =
     (if onInputChange p then [OnInputChange val] else []) @
     (let newSelectedKey = computeKeyFromValue val c
      in if newSelectedKey \<noteq> selKey
         then (if onSelectionChange p then [OnSelectionChange newSelectedKey] else [])
         else [])"

text \<open>The callback \<open>setSelectedKey\<close>, given the input value and the selected key of the
  render.\<close>

definition setSelectedKey :: "props \<Rightarrow> collection \<Rightarrow> string \<Rightarrow> js_key \<Rightarrow> js_key \<Rightarrow> effect list" where
  "setSelectedKey p c inputVal selKey k =
     (let item = getItem c k;
          itemText = (case item of Some n \<Rightarrow> textValue n | None \<Rightarrow> [])
      in (if itemText \<noteq> [] then [SetInputValue itemText] else []) @
         (if itemText = inputVal \<and> selKey \<noteq> k
          then (if onSelectionChange p then [OnSelectionChange k] else [])
          else []))"

text \<open>The effect on \<open>props.selectedKey\<close>: the effects and the new content of the reference
  \<open>lastSelectedKeyProp\<close>, which starts as the empty string.\<close>

definition selectedKey_effect ::
  "props \<Rightarrow> collection \<Rightarrow> string \<Rightarrow> js_key \<Rightarrow> js_key \<Rightarrow> effect list \<times> js_key" where
  "selectedKey_effect p c inputVal selKey lastSelectedKeyProp =
     ((if lastSelectedKeyProp \<noteq> selectedKey p
       then setSelectedKey p c inputVal selKey (selectedKey p) else []),
      selectedKey p)"

section \<open>The default filter predicate\<close>

text \<open>
  \<open>s.replace(' ', '')\<close> with a string pattern replaces the first occurrence of the
  pattern only; \<open>s.slice(a, b)\<close> for \<open>0 \<le> a\<close> and \<open>0 \<le> b\<close>. Lower-casing is
  the built-in \<open>toLowerCase\<close>, a parameter of the model.
\<close>

fun replace_first :: "char \<Rightarrow> string \<Rightarrow> string \<Rightarrow> string" where
  "replace_first c r [] = []"
| "replace_first c r (x # xs) = (if x = c then r @ xs else x # replace_first c r xs)"

definition slice :: "string \<Rightarrow> nat \<Rightarrow> nat \<Rightarrow> string" where
  "slice s a b = take (b - a) (drop a s)"

definition lowercaseValue :: "(string \<Rightarrow> string) \<Rightarrow> string \<Rightarrow> string" where
  "lowercaseValue toLowerCase inputVal = replace_first CHR '' '' [] (toLowerCase inputVal)"

text \<open>The \<open>for\<close> loop of \<open>defaultFilterFn\<close>, from the values of \<open>scan\<close> and
  \<open>match\<close> at its head.\<close>

function defaultFilterFn_loop ::
  "(string \<Rightarrow> string \<Rightarrow> int) \<Rightarrow> string \<Rightarrow> string \<Rightarrow> nat \<Rightarrow> bool \<Rightarrow> bool" where
  "defaultFilterFn_loop coll lowerVal lowercaseNode scan match =
     (let sliceLen = length lowerVal in
      if scan + sliceLen \<le> length lowercaseNode \<and> \<not> match then
        (let nodeSlice = slice lowercaseNode scan (scan + sliceLen);
             compareVal = coll lowerVal nodeSlice
         in defaultFilterFn_loop coll lowerVal lowercaseNode (scan + 1)
              (if compareVal = 0 then True else match))
      else match)"
  by pat_completeness auto
termination
  by (relation "measure (\<lambda>(coll, lowerVal, lowercaseNode, scan, match).
        Suc (length lowercaseNode) - (scan + length lowerVal))") auto

declare defaultFilterFn_loop.simps [simp del]

definition defaultFilterFn ::
  "(string \<Rightarrow> string) \<Rightarrow> (string \<Rightarrow> string \<Rightarrow> int) \<Rightarrow> string \<Rightarrow> node \<Rightarrow> bool" where
  "defaultFilterFn toLowerCase coll lowerVal node =
     (let lowercaseNode = replace_first CHR '' '' [] (toLowerCase (textValue node))
      in defaultFilterFn_loop coll lowerVal lowercaseNode 0 False)"

text \<open>The effect on the input value: the effects and the new content of the reference
  \<open>lastValue\<close>.\<close>

definition onFilter_effect :: "props \<Rightarrow> string \<Rightarrow> string \<Rightarrow> effect list \<times> string" where
  "onFilter_effect p lastValue inputVal =
     ((if onFilter p \<and> lastValue \<noteq> inputVal then [OnFilter (Some inputVal)] else []),
      inputVal)"

definition nodeFilter ::
  "(string \<Rightarrow> string) \<Rightarrow> props \<Rightarrow> string \<Rightarrow> (node list \<Rightarrow> node list) option" where
  "nodeFilter toLowerCase p inputVal =
     (let itemsControlled = onFilter p in
      if itemsControlled \<or> inputVal = [] then None
      else Some (\<lambda>nodes. filter_nodes nodes
                  (defaultFilterFn toLowerCase (collator p) (lowercaseValue toLowerCase inputVal))))"

section \<open>Opening the popup\<close>

text \<open>\<open>open\<close> of the returned state.\<close>

definition state_open :: "collection \<Rightarrow> string option \<Rightarrow> effect list" where
  "state_open filteredCollection focusStrategy =
     (if size_of filteredCollection > 0 then [TriggerOpen focusStrategy] else [])"

text \<open>\<open>setOpen\<close> and \<open>toggle\<close> of the returned state are the fields that the object
  spread \<open>...triggerState\<close> copies from the trigger state; the returned state does not
  replace them.\<close>

definition state_setOpen :: "bool \<Rightarrow> effect list" where
  "state_setOpen b = [TriggerSetOpen b]"

definition state_toggle :: "effect list" where
  "state_toggle = [TriggerToggle]"

text \<open>\<open>isOpen\<close> of the returned state.\<close>

definition state_isOpen :: "bool \<Rightarrow> bool \<Rightarrow> collection \<Rightarrow> bool" where
  "state_isOpen triggerIsOpen isFocused filteredCollection =
     (triggerIsOpen \<and> isFocused \<and> size_of filteredCollection > 0)"

text \<open>
  Modelled from the spec: the open state of the menu trigger primitive, which is not part of
  the sources at hand: an open/close boolean with the operations open, setOpen and toggle.
  Other effects leave it as it is.
\<close>

fun trigger_apply :: "bool \<Rightarrow> effect \<Rightarrow> bool" where
  "trigger_apply isOpen (TriggerOpen focusStrategy) = True"
| "trigger_apply isOpen (TriggerSetOpen b) = b"
| "trigger_apply isOpen TriggerToggle = (\<not> isOpen)"
| "trigger_apply isOpen e = isOpen"

section \<open>The suggested value\<close>

text \<open>The loop over \<open>filteredTextValues\<close>; \<open>break\<close> ends it at the first match.\<close>

fun suggested_loop :: "(string \<Rightarrow> string \<Rightarrow> int) \<Rightarrow> string \<Rightarrow> string list \<Rightarrow> string option" where
  "suggested_loop coll inputVal [] = None"
| "suggested_loop coll inputVal (v # vs) =
     (if v \<noteq> [] \<and> coll inputVal (slice v 0 (length inputVal)) = 0 then Some v
      else suggested_loop coll inputVal vs)"

definition filteredTextValues :: "collection \<Rightarrow> string list" where
  "filteredTextValues filteredCollection = map textValue (iterable filteredCollection)"

definition suggestedValue :: "props \<Rightarrow> collection \<Rightarrow> string \<Rightarrow> js_key \<Rightarrow> string option" where
  "suggestedValue p filteredCollection inputVal focusedKey =
     (if length inputVal > 0 \<and> \<not> allowsCustomValue p then
        (let sliceLen = length inputVal;
             match =
               (if truthy focusedKey then
                  (case getItem filteredCollection focusedKey of
                     None \<Rightarrow> None
                   | Some n \<Rightarrow>
                       (let focusedText = textValue n;
                            valueSlice = slice focusedText 0 sliceLen
                        in if valueSlice \<noteq> [] \<and> collator p inputVal valueSlice = 0
                           then Some focusedText else None))
                else None)
         in if (case match of None \<Rightarrow> True | Some m \<Rightarrow> m = [])
            then suggested_loop (collator p) inputVal (filteredTextValues filteredCollection)
            else match)
      else None)"

text \<open>
  \<open>suggestedValue\<close> is the body of a \<open>useMemo\<close>. React's \<open>useMemo\<close> returns the value
  of the previous render when there is one and the dependencies are those of the previous
  render, and the newly computed value otherwise. The dependencies of the suggestion are
  the collator, the filtered text values, the input value and the focused key.
\<close>

definition useMemo :: "('d \<times> 'a) option \<Rightarrow> 'd \<Rightarrow> 'a \<Rightarrow> 'a" where
  "useMemo previous deps computed =
     (case previous of
        None \<Rightarrow> computed
      | Some (previousDeps, previousValue) \<Rightarrow>
          if previousDeps = deps then previousValue else computed)"

type_synonym suggestion_deps = "(string \<Rightarrow> string \<Rightarrow> int) \<times> string list \<times> string \<times> js_key"

definition suggestedValue_memo ::
  "(suggestion_deps \<times> string option) option \<Rightarrow> props \<Rightarrow> collection \<Rightarrow> string \<Rightarrow> js_key \<Rightarrow>
     string option" where
  "suggestedValue_memo previous p filteredCollection inputVal focusedKey =
     useMemo previous
       (collator p, filteredTextValues filteredCollection, inputVal, focusedKey)
       (suggestedValue p filteredCollection inputVal focusedKey)"

section \<open>The state of one render\<close>

text \<open>
  What the hooks outside these sources hold in a render: the focus flag, the input value of
  the controlled state, the open flag of the trigger state, the focused key of the
  selection manager, and the dependencies and the value of the suggestion in the previous
  render.
\<close>

record hooks =
  h_isFocused :: bool
  h_inputValue :: string
  h_triggerIsOpen :: bool
  h_focusedKey :: js_key
  h_suggestedValue :: "(suggestion_deps \<times> string option) option"

record ComboBoxState =
  state_selectedKey :: js_key
  state_collection :: collection
  state_isFocused :: bool
  state_isOpen_value :: bool
  state_inputValue :: string
  state_suggestedValue :: "string option"

text \<open>The hook on the node list of the collection: the error it throws, or the fields of the
  state it returns that are values.\<close>

definition useComboBoxState ::
  "(string \<Rightarrow> string) \<Rightarrow> props \<Rightarrow> node list \<Rightarrow> hooks \<Rightarrow> error + ComboBoxState" where
  "useComboBoxState toLowerCase p nodes h =
     (let c = ListCollection nodes in
      case check_mismatch p c of
        Inl e \<Rightarrow> Inl e
      | Inr u \<Rightarrow>
          (let inputVal = h_inputValue h;
               selKey = current_selectedKey p inputVal c;
               filteredCollection =
                 ListCollection (case nodeFilter toLowerCase p inputVal of
                                   None \<Rightarrow> nodes | Some flt \<Rightarrow> flt nodes)
           in Inr \<lparr>state_selectedKey = selKey,
                   state_collection = filteredCollection,
                   state_isFocused = h_isFocused h,
                   state_isOpen_value = state_isOpen (h_triggerIsOpen h) (h_isFocused h) filteredCollection,
                   state_inputValue = inputVal,
                   state_suggestedValue =
                     suggestedValue_memo (h_suggestedValue h) p filteredCollection inputVal
                       (h_focusedKey h)\<rparr>))"

section \<open>Notions used to state the properties\<close>

text \<open>A tree in which every section is flagged as having children and has them, at every
  level.\<close>

fun sections_nonempty :: "node list \<Rightarrow> bool" where
  "sections_nonempty [] = True"
| "sections_nonempty (Node k t txt h cs # nodes) =
     ((t = ''section'' \<longrightarrow> h \<and> cs \<noteq> [] \<and> sections_nonempty cs) \<and> sections_nonempty nodes)"

text \<open>The keys of a tree in visiting order.\<close>

definition keys_of :: "node list \<Rightarrow> Key list" where
  "keys_of nodes = map key (nodes_of nodes)"

text \<open>
  The default predicate as the specification words it: both texts lower-cased and freed of
  every space character, and some substring of the item text, as long as the query, equal
  to the query under the collator.
\<close>

definition remove_spaces :: "string \<Rightarrow> string" where
  "remove_spaces s = filter (\<lambda>c. c \<noteq> CHR '' '') s"

definition spec_defaultFilter ::
  "(string \<Rightarrow> string) \<Rightarrow> (string \<Rightarrow> string \<Rightarrow> int) \<Rightarrow> string \<Rightarrow> node \<Rightarrow> bool" where
  "spec_defaultFilter toLowerCase coll query node =
     (let q = remove_spaces (toLowerCase query);
          t = remove_spaces (toLowerCase (textValue node))
      in list_ex (\<lambda>i. coll q (take (length q) (drop i t)) = 0) [0 ..< Suc (length t) - length q])"

text \<open>The prefix of a text, as long as the input, compares equal to the input.\<close>

definition prefix_matches :: "(string \<Rightarrow> string \<Rightarrow> int) \<Rightarrow> string \<Rightarrow> string \<Rightarrow> bool" where
  "prefix_matches coll inputVal txt = (coll inputVal (take (length inputVal) txt) = 0)"

text \<open>The requests of the host to open or close the popup, and the effects of each on the
  returned state.\<close>

datatype request = Open "string option" | SetOpen bool | Toggle

fun request_effects :: "collection \<Rightarrow> request \<Rightarrow> effect list" where
  "request_effects filteredCollection (Open focusStrategy) = state_open filteredCollection focusStrategy"
| "request_effects filteredCollection (SetOpen b) = state_setOpen b"
| "request_effects filteredCollection Toggle = state_toggle"

text \<open>
  Modelled from the spec: the input value that the controlled state hook, which is not part
  of the sources at hand, holds after an effect when the host does not control the input
  value: \<open>setInputValue\<close> stores its argument.
\<close>

fun input_apply :: "string \<Rightarrow> effect \<Rightarrow> string" where
  "input_apply inputVal (SetInputValue v) = v"
| "input_apply inputVal e = inputVal"

section \<open>Concrete inputs\<close>

text \<open>A lower-casing of the ASCII letters and a comparison by code units, as instances of
  the built-in lower-casing and of the collator.\<close>

definition ascii_toLowerCase :: "string \<Rightarrow> string" where
  "ascii_toLowerCase s =
     map (\<lambda>c. if 65 \<le> (of_char c :: nat) \<and> (of_char c :: nat) \<le> 90
              then char_of ((of_char c :: nat) + 32) else c) s"

fun codeunit_compare :: "string \<Rightarrow> string \<Rightarrow> int" where
  "codeunit_compare [] [] = 0"
| "codeunit_compare [] (y # ys) = - 1"
| "codeunit_compare (x # xs) [] = 1"
| "codeunit_compare (x # xs) (y # ys) =
     (if (of_char x :: nat) < of_char y then - 1
      else if (of_char y :: nat) < of_char x then 1
      else codeunit_compare xs ys)"

definition item_node :: "Key \<Rightarrow> string \<Rightarrow> node" where
  "item_node k txt = Node k ''item'' txt False []"

definition section_node :: "Key \<Rightarrow> string \<Rightarrow> node list \<Rightarrow> node" where
  "section_node k title cs = Node k ''section'' title True cs"

definition fruit_nodes :: "node list" where
  "fruit_nodes =
     [section_node (Str ''fruit'') ''Fruit'' [item_node (Str ''a'') ''Apple'', item_node (Str ''b'') ''Banana''],
      item_node (Str ''c'') ''Carrot'']"

text \<open>The objects of \<open>fruit_nodes\<close>: the section at address 2, its items at 0 and 1, the
  last item at 3.\<close>

definition fruit_store :: store where
  "fruit_store =
    [\<lparr>o_key = Str ''a'', o_type = ''item'', o_textValue = ''Apple'', o_hasChildNodes = False, o_childNodes = []\<rparr>,
     \<lparr>o_key = Str ''b'', o_type = ''item'', o_textValue = ''Banana'', o_hasChildNodes = False, o_childNodes = []\<rparr>,
     \<lparr>o_key = Str ''fruit'', o_type = ''section'', o_textValue = ''Fruit'', o_hasChildNodes = True, o_childNodes = [0, 1]\<rparr>,
     \<lparr>o_key = Str ''c'', o_type = ''item'', o_textValue = ''Carrot'', o_hasChildNodes = False, o_childNodes = []\<rparr>]"

definition item_nodes :: "node list" where
  "item_nodes = [item_node (Num 1) ''ItemOne'', item_node (Num 0) ''Item One'']"

definition plain_props :: props where
  "plain_props =
     \<lparr>selectedKey = Undefined, defaultSelectedKey = Undefined, inputValue = None,
      defaultInputValue = None, allowsCustomValue = False, collator = codeunit_compare,
      onInputChange = True, onSelectionChange = True, onFilter = False\<rparr>"

definition plain_hooks :: hooks where
  "plain_hooks =
     \<lparr>h_isFocused = True, h_inputValue = [], h_triggerIsOpen = False, h_focusedKey = Undefined,
      h_suggestedValue = None\<rparr>"

section \<open>Input value and selected key: properties\<close>

text \<open>The loop of \<open>computeKeyFromValue\<close> finds the first entry that is an item with the
  text; its result is a key or \<open>undefined\<close>, never \<open>null\<close>.\<close>

lemma computeKey_loop_find:
  "computeKey_loop val es =
     (case find (\<lambda>(k, n). node_type n \<noteq> ''section'' \<and> textValue n = val) es of
        None \<Rightarrow> Undefined | Some (k, n) \<Rightarrow> Defined k)"
  by (induction es) (auto split: prod.splits)

lemma computeKey_loop_Undefined:
  "computeKey_loop val es = Undefined \<longleftrightarrow>
     (\<forall>(k, n) \<in> set es. node_type n = ''section'' \<or> textValue n \<noteq> val)"
  by (induction es) (auto split: if_splits)

lemma computeKey_loop_Defined:
  "computeKey_loop val es = Defined k \<Longrightarrow>
     \<exists>n. (k, n) \<in> set es \<and> node_type n \<noteq> ''section'' \<and> textValue n = val"
  by (induction es) (auto split: if_splits)

lemma computeKey_loop_not_Null: "computeKey_loop val es \<noteq> Null"
  by (induction es) (auto split: if_splits)

text \<open>
  Claim C1. On a change of the input value the new selected key is resolved by exact equality
  of the new text with the text of the item nodes (the nodes that are not sections) in the
  key map of the unfiltered collection: it is the key of the first such item, and it is
  \<open>undefined\<close> exactly when no item has that text. When the host listens to selection
  changes, a selection change is notified if and only if the resolved key differs from the
  current selected key, and the key notified is the resolved key.
\<close>

theorem onInputChange_selection:
  "computeKeyFromValue val c =
     (case find (\<lambda>(k, n). node_type n \<noteq> ''section'' \<and> textValue n = val) (keyMap c) of
        None \<Rightarrow> Undefined | Some (k, n) \<Rightarrow> Defined k)
   \<and> (computeKeyFromValue val c = Undefined \<longleftrightarrow>
        (\<forall>(k, n) \<in> set (keyMap c). node_type n = ''section'' \<or> textValue n \<noteq> val))
   \<and> (onSelectionChange p \<longrightarrow>
        (\<forall>k. OnSelectionChange k \<in> set (onInputChange_fn p c selKey val) \<longleftrightarrow>
             k = computeKeyFromValue val c \<and> computeKeyFromValue val c \<noteq> selKey))"
  unfolding computeKeyFromValue_def onInputChange_fn_def
  using computeKey_loop_find [of val "keyMap c"] computeKey_loop_Undefined [of val "keyMap c"]
  by (auto simp: Let_def)

theorem onInputChange_selection_witness:
  "onSelectionChange plain_props
   \<and> computeKeyFromValue ''Apple'' (ListCollection fruit_nodes) = Defined (Str ''a'')
   \<and> OnSelectionChange (Defined (Str ''a'')) \<in>
        set (onInputChange_fn plain_props (ListCollection fruit_nodes) Undefined ''Apple'')
   \<and> computeKeyFromValue ''Applz'' (ListCollection fruit_nodes) = Undefined
   \<and> computeKeyFromValue ''apple'' (ListCollection fruit_nodes) = Undefined
   \<and> OnSelectionChange Undefined \<notin>
        set (onInputChange_fn plain_props (ListCollection fruit_nodes) Undefined ''Applz'')"
  using onInputChange_selection [of "''Apple''" "ListCollection fruit_nodes" plain_props Undefined]
    onInputChange_selection [of "''Applz''" "ListCollection fruit_nodes" plain_props Undefined]
    onInputChange_selection [of "''apple''" "ListCollection fruit_nodes" plain_props Undefined]
  by (simp add: plain_props_def ListCollection_def fruit_nodes_def item_node_def section_node_def)

text \<open>The effects of \<open>setSelectedKey\<close> for a key with a node that has a text, and for a
  key without a node.\<close>

lemma setSelectedKey_found:
  "getItem c k = Some n \<Longrightarrow> textValue n \<noteq> [] \<Longrightarrow>
     setSelectedKey p c inputVal selKey k =
       SetInputValue (textValue n) #
       (if textValue n = inputVal \<and> selKey \<noteq> k \<and> onSelectionChange p
        then [OnSelectionChange k] else [])"
  by (auto simp add: setSelectedKey_def Let_def)

lemma setSelectedKey_missing:
  "getItem c k = None \<Longrightarrow>
     setSelectedKey p c inputVal selKey k =
       (if inputVal = [] \<and> selKey \<noteq> k \<and> onSelectionChange p then [OnSelectionChange k] else [])"
  by (auto simp add: setSelectedKey_def)

text \<open>
  Claim C2. When the key given to \<open>setSelectedKey\<close> identifies a node of the unfiltered
  collection whose text is not empty, the input value is set to that text, and to nothing
  else; and when that text is already the input value while the key differs from the
  current selected key, the selection change is notified to a host that listens.
\<close>

theorem setSelectedKey_sets_input:
  "getItem c k = Some n \<Longrightarrow> textValue n \<noteq> [] \<Longrightarrow>
     SetInputValue (textValue n) \<in> set (setSelectedKey p c inputVal selKey k)
   \<and> (\<forall>t. SetInputValue t \<in> set (setSelectedKey p c inputVal selKey k) \<longrightarrow> t = textValue n)
   \<and> foldl input_apply inputVal (setSelectedKey p c inputVal selKey k) = textValue n
   \<and> (onSelectionChange p \<and> textValue n = inputVal \<and> selKey \<noteq> k \<longrightarrow>
        OnSelectionChange k \<in> set (setSelectedKey p c inputVal selKey k))"
  by (auto simp add: setSelectedKey_found)

theorem setSelectedKey_sets_input_witness:
  "getItem (ListCollection fruit_nodes) (Defined (Str ''a'')) = Some (item_node (Str ''a'') ''Apple'')
   \<and> textValue (item_node (Str ''a'') ''Apple'') \<noteq> []
   \<and> SetInputValue ''Apple'' \<in>
        set (setSelectedKey plain_props (ListCollection fruit_nodes) [] Undefined (Defined (Str ''a'')))
   \<and> foldl input_apply []
        (setSelectedKey plain_props (ListCollection fruit_nodes) [] Undefined (Defined (Str ''a''))) = ''Apple''
   \<and> onSelectionChange plain_props
   \<and> OnSelectionChange (Defined (Str ''a'')) \<in>
        set (setSelectedKey plain_props (ListCollection fruit_nodes) ''Apple'' Undefined (Defined (Str ''a'')))"
  using setSelectedKey_sets_input [of "ListCollection fruit_nodes" "Defined (Str ''a'')"
      "item_node (Str ''a'') ''Apple''" plain_props "[]" Undefined]
    setSelectedKey_sets_input [of "ListCollection fruit_nodes" "Defined (Str ''a'')"
      "item_node (Str ''a'') ''Apple''" plain_props "''Apple''" Undefined]
  by (simp add: plain_props_def ListCollection_def fruit_nodes_def item_node_def section_node_def)

text \<open>
  Claim C8, as amended. When the key given to \<open>setSelectedKey\<close> identifies no node of the
  unfiltered collection, the operation has no error result, the text of the item is taken
  to be empty and the input value is not set at all: it keeps its value. The only effect
  there can be is the notification of the selection change, made exactly when the input
  value is already empty, the key differs from the current selected key and the host
  listens.
\<close>

theorem setSelectedKey_absent:
  "getItem c k = None \<Longrightarrow>
     (\<forall>t. SetInputValue t \<notin> set (setSelectedKey p c inputVal selKey k))
   \<and> foldl input_apply inputVal (setSelectedKey p c inputVal selKey k) = inputVal
   \<and> (\<forall>e. e \<in> set (setSelectedKey p c inputVal selKey k) \<longleftrightarrow>
          e = OnSelectionChange k \<and> inputVal = [] \<and> selKey \<noteq> k \<and> onSelectionChange p)"
  by (auto simp add: setSelectedKey_missing)

theorem setSelectedKey_absent_witness:
  "getItem (ListCollection fruit_nodes) (Defined (Str ''z'')) = None
   \<and> SetInputValue [] \<notin> set (setSelectedKey plain_props (ListCollection fruit_nodes) ''Apple'' (Defined (Str ''a'')) (Defined (Str ''z'')))
   \<and> OnSelectionChange (Defined (Str ''z'')) \<in> set (setSelectedKey plain_props (ListCollection fruit_nodes) [] Undefined (Defined (Str ''z'')))"
  using setSelectedKey_absent [of "ListCollection fruit_nodes" "Defined (Str ''z'')" plain_props "''Apple''" "Defined (Str ''a'')"]
   setSelectedKey_absent [of "ListCollection fruit_nodes" "Defined (Str ''z'')" plain_props "[]" Undefined]
  by (simp add: ListCollection_def fruit_nodes_def item_node_def section_node_def plain_props_def)

text \<open>The input value \<open>Apple\<close> stays when a key that no node has is selected.\<close>

theorem setSelectedKey_absent_counterexample:
  "getItem (ListCollection fruit_nodes) (Defined (Str ''z'')) = None
   \<and> setSelectedKey plain_props (ListCollection fruit_nodes) ''Apple'' (Defined (Str ''a'')) (Defined (Str ''z'')) = []
   \<and> foldl input_apply ''Apple''
        (setSelectedKey plain_props (ListCollection fruit_nodes) ''Apple'' (Defined (Str ''a'')) (Defined (Str ''z''))) = ''Apple''"
  by (simp add: setSelectedKey_def ListCollection_def fruit_nodes_def item_node_def section_node_def plain_props_def)

text \<open>The hook throws exactly when the check of the controlled pair does.\<close>

lemma check_mismatch_iff:
  "check_mismatch p c = Inl Mismatch \<longleftrightarrow>
     truthy (selectedKey p) \<and>
     (\<exists>v. inputValue p = Some v \<and> v \<noteq> [] \<and>
          (case getItem c (selectedKey p) of Some n \<Rightarrow> textValue n | None \<Rightarrow> []) \<noteq> v)"
  by (auto simp: check_mismatch_def Let_def split: option.splits)

lemma useComboBoxState_Inl:
  "useComboBoxState lc p nodes h = Inl e \<longleftrightarrow> check_mismatch p (ListCollection nodes) = Inl e"
  by (auto simp: useComboBoxState_def Let_def split: sum.splits)

text \<open>Where the selected key property is truthy and the input value property is a text
  that is not empty, the hook throws when the text of the node with the selected key,
  empty when no node has the key, differs from the input value property.\<close>

lemma useComboBoxState_throws:
  "truthy (selectedKey p) \<Longrightarrow> inputValue p = Some v \<Longrightarrow> v \<noteq> [] \<Longrightarrow>
     (case getItem (ListCollection nodes) (selectedKey p) of
        Some n \<Rightarrow> textValue n | None \<Rightarrow> []) \<noteq> v \<Longrightarrow>
     useComboBoxState lc p nodes h = Inl Mismatch"
  by (simp add: useComboBoxState_Inl check_mismatch_iff)

text \<open>
  Claim C3. With the selected key of \<open>Apple\<close> and the input value \<open>Banana\<close> the hook
  throws the mismatch error, as the claim says, and so it does with the key \<open>1\<close> of
  \<open>ItemOne\<close>. The guard of the check tests the two properties for truthiness: with the
  same key of \<open>Apple\<close> and the empty string supplied as the input value, and with the key
  \<open>0\<close> of \<open>Item One\<close> and the input value \<open>Banana\<close>, both properties are supplied and
  the texts differ, yet the hook throws nothing and returns a state.
\<close>

theorem construction_mismatch_missed:
  "map_option textValue (getItem (ListCollection fruit_nodes) (Defined (Str ''a''))) = Some ''Apple''
   \<and> useComboBoxState ascii_toLowerCase
        (plain_props\<lparr>selectedKey := Defined (Str ''a''), inputValue := Some ''Banana''\<rparr>)
        fruit_nodes plain_hooks = Inl Mismatch
   \<and> isl (useComboBoxState ascii_toLowerCase
        (plain_props\<lparr>selectedKey := Defined (Str ''a''), inputValue := Some []\<rparr>)
        fruit_nodes plain_hooks) = False
   \<and> map_option textValue (getItem (ListCollection item_nodes) (Defined (Num 1))) = Some ''ItemOne''
   \<and> useComboBoxState ascii_toLowerCase
        (plain_props\<lparr>selectedKey := Defined (Num 1), inputValue := Some ''Banana''\<rparr>)
        item_nodes plain_hooks = Inl Mismatch
   \<and> map_option textValue (getItem (ListCollection item_nodes) (Defined (Num 0))) = Some ''Item One''
   \<and> isl (useComboBoxState ascii_toLowerCase
        (plain_props\<lparr>selectedKey := Defined (Num 0), inputValue := Some ''Banana''\<rparr>)
        item_nodes plain_hooks) = False"
  by (simp add: useComboBoxState_def check_mismatch_def plain_props_def ListCollection_def
      fruit_nodes_def item_nodes_def item_node_def section_node_def Let_def)

section \<open>The filter: properties\<close>

text \<open>Induction over a tree: a property of the empty list that passes from the children of
  a node and the remaining nodes to the list is a property of every list of nodes.\<close>

lemma node_list_induct [case_names Nil Node]:
  assumes "P []"
    and "\<And>k t txt h cs nodes. P cs \<Longrightarrow> P nodes \<Longrightarrow> P (Node k t txt h cs # nodes)"
  shows "P nodes"
proof (induction "size_list size nodes" arbitrary: nodes rule: less_induct)
  case less
  show ?case
  proof (cases nodes)
    case Nil
    with assms(1) show ?thesis by simp
  next
    case (Cons n ns)
    obtain k t tv h cs where n: "n = Node k t tv h cs" by (cases n)
    have "P cs" by (rule less) (simp add: Cons n)
    moreover have "P ns" by (rule less) (simp add: Cons)
    ultimately show ?thesis unfolding Cons n by (rule assms(2))
  qed
qed

lemma filter_nodes_item:
  "n \<in> set (nodes_of (filter_nodes nodes f)) \<Longrightarrow> node_type n \<noteq> ''section'' \<Longrightarrow>
     f n \<and> n \<in> set (nodes_of nodes)"
  by (induction nodes rule: node_list_induct) (auto split: if_splits simp: Let_def)

lemma filter_nodes_section:
  "n \<in> set (nodes_of (filter_nodes nodes f)) \<Longrightarrow> node_type n = ''section'' \<Longrightarrow>
     hasChildNodes n \<and> childNodes n \<noteq> [] \<and>
     (\<exists>m \<in> set (nodes_of nodes). node_type m = ''section'' \<and> hasChildNodes m \<and>
        filter_nodes (childNodes m) f \<noteq> [] \<and>
        n = copy_with_childNodes m (filter_nodes (childNodes m) f))"
  by (induction nodes rule: node_list_induct) (auto split: if_splits simp: Let_def)

lemma length_filter_nodes: "length (nodes_of (filter_nodes nodes f)) \<le> length (nodes_of nodes)"
  by (induction nodes rule: node_list_induct) (auto simp: Let_def)

lemma filter_true_id: "sections_nonempty nodes \<Longrightarrow> filter_nodes nodes (\<lambda>n. True) = nodes"
  by (induction nodes rule: node_list_induct) (auto simp: Let_def)

lemma filter_true_len:
  "length (nodes_of (filter_nodes nodes (\<lambda>n. True))) = length (nodes_of nodes) \<Longrightarrow> sections_nonempty nodes"
proof (induction nodes rule: node_list_induct)
  case Nil
  then show ?case by simp
next
  case (Node k t tv h cs nodes)
  have a: "length (nodes_of (filter_nodes cs (\<lambda>n. True))) \<le> length (nodes_of cs)"
    and b: "length (nodes_of (filter_nodes nodes (\<lambda>n. True))) \<le> length (nodes_of nodes)"
    by (rule length_filter_nodes)+
  from Node a b show ?case
    by (auto simp: Let_def split: if_splits)
qed

subsection \<open>The filter on a store\<close>

text \<open>What an address represents depends on the objects at the addresses in \<open>S\<close> only,
  and stays what it is in a store in which these objects are unchanged.\<close>

lemma rep_frame:
  "rep S st a n \<Longrightarrow> (\<forall>b\<in>S. b < length st \<longrightarrow> b < length st' \<and> st' ! b = st ! b) \<Longrightarrow> rep S st' a n"
  "reps S st as ns \<Longrightarrow> (\<forall>b\<in>S. b < length st \<longrightarrow> b < length st' \<and> st' ! b = st ! b) \<Longrightarrow> reps S st' as ns"
  by (induction S st a n and S st as ns rule: rep_reps.induct) auto

lemma rep_mono:
  "rep S st a n \<Longrightarrow> S \<subseteq> T \<Longrightarrow> rep T st a n"
  "reps S st as ns \<Longrightarrow> S \<subseteq> T \<Longrightarrow> reps T st as ns"
  by (induction S st a n and S st as ns rule: rep_reps.induct) auto

lemma reps_length: "reps S st as ns \<Longrightarrow> length as = length ns"
  by (induction as ns rule: list_induct2') auto

lemma reps_Cons_right:
  "reps S st as (n # ns) \<Longrightarrow> \<exists>a rest. as = a # rest \<and> rep S st a n \<and> reps S st rest ns"
  by (cases as) auto

lemma rep_textValue: "rep S st a n \<Longrightarrow> o_textValue (st ! a) = textValue n"
  by (cases n) simp

lemma unchanged_refl: "unchanged st st"
  by (simp add: unchanged_def)

lemma unchanged_trans: "unchanged st st' \<Longrightarrow> unchanged st' st'' \<Longrightarrow> unchanged st st''"
  by (auto simp: unchanged_def)

lemma unchanged_append: "unchanged st (st @ xs)"
  by (simp add: unchanged_def nth_append)

lemma unchanged_update: "length st \<le> c \<Longrightarrow> unchanged st st' \<Longrightarrow> unchanged st (st'[c := x])"
  by (auto simp: unchanged_def)

lemma rep_unchanged:
  "S \<subseteq> {..<length st} \<Longrightarrow> unchanged st st' \<Longrightarrow> rep S st a n \<longleftrightarrow> rep S st' a n"
  "S \<subseteq> {..<length st} \<Longrightarrow> unchanged st st' \<Longrightarrow> reps S st as ns \<longleftrightarrow> reps S st' as ns"
  by (induction S st a n and S st as ns rule: rep_reps.induct) (auto simp: unchanged_def)

lemma agree_unchanged:
  assumes "agree S st fo f" "S \<subseteq> {..<length st}" "unchanged st st'"
  shows "agree S st' fo f"
  unfolding agree_def
proof (intro allI impI)
  fix a n assume r: "rep S st' a n"
  with assms(2,3) have r0: "rep S st a n" by (simp add: rep_unchanged(1))
  then have "a \<in> S" by (cases n) simp
  with assms(2) have "a < length st" by auto
  with assms(3) have "st' ! a = st ! a" by (simp add: unchanged_def)
  with assms(1) r0 show "fo (st' ! a) = f n" by (simp add: agree_def)
qed

lemma agree_textValue: "agree S st (\<lambda>ob. P (o_textValue ob)) (\<lambda>n. P (textValue n))"
  by (simp add: agree_def rep_textValue)

text \<open>The three ways in which the loop goes on from a node: the node is dropped, an item is
  pushed, the copy of a section is pushed.\<close>

lemma post_skip:
  assumes "unchanged st stx" "filter_post S stx rest ns st' out"
  shows "filter_post S st (a # rest) ns st' out"
proof -
  from assms have u: "unchanged st st'" and l: "length st \<le> length stx"
    by (auto simp: filter_post_def unchanged_def)
  from l have "S \<union> {length stx..<length st'} \<subseteq> S \<union> {length st..<length st'}" by auto
  with assms(2) have "reps (S \<union> {length st..<length st'}) st' out ns"
    unfolding filter_post_def using rep_mono(2) by blast
  with u l assms(2) show ?thesis by (auto simp: filter_post_def split: if_splits)
qed

lemma post_keep_item:
  assumes "filter_post S st rest ns st' out" "rep S st a n" "S \<subseteq> {..<length st}"
    "node_type n \<noteq> ''section''"
  shows "filter_post S st (a # rest) (n # ns) st' (a # out)"
proof -
  from assms(1) have u: "unchanged st st'" by (simp add: filter_post_def)
  with assms(2,3) have "rep S st' a n" by (simp add: rep_unchanged(1))
  then have r: "rep (S \<union> {length st..<length st'}) st' a n" by (rule rep_mono(1)) simp
  then have "o_type (st' ! a) = node_type n" by (cases n) simp
  with assms(1,4) u r show ?thesis by (auto simp: filter_post_def split: if_splits)
qed

lemma post_keep_copy:
  assumes "unchanged st st3" "length st < length st3" "S \<subseteq> {..<length st}"
    "filter_post S st3 rest ns st' out"
    "rep (S \<union> {length st..<length st3}) st3 (length st) n" "node_type n = ''section''"
  shows "filter_post S st (a # rest) (n # ns) st' (length st # out)"
proof -
  from assms(4) have u3: "unchanged st3 st'" by (simp add: filter_post_def)
  have sub: "S \<union> {length st..<length st3} \<subseteq> {..<length st3}" using assms(2,3) by auto
  from sub u3 assms(5) have "rep (S \<union> {length st..<length st3}) st' (length st) n"
    by (simp add: rep_unchanged(1))
  moreover have "S \<union> {length st..<length st3} \<subseteq> S \<union> {length st..<length st'}"
    using u3 by (auto simp: unchanged_def)
  ultimately have r: "rep (S \<union> {length st..<length st'}) st' (length st) n" by (rule rep_mono(1))
  then have ty: "o_type (st' ! length st) = ''section''" using assms(6) by (cases n) simp
  have "filter_post S st (a # rest) ns st' out" using assms(1,4) by (rule post_skip)
  with r ty show ?thesis by (auto simp: filter_post_def)
qed

text \<open>
  On a store that represents a tree, the filter on the store returns; the store it returns
  holds the source unchanged, and the addresses it returns represent the tree that
  \<open>filter_nodes\<close> returns.
\<close>

lemma filter_store_refines:
  "reps S st as ns \<Longrightarrow> S \<subseteq> {..<length st} \<Longrightarrow> agree S st fo f \<Longrightarrow>
     \<exists>st' out. filter_store st as fo = Some (st', out) \<and>
                filter_post S st as (filter_nodes ns f) st' out"
proof (induction ns arbitrary: st as rule: node_list_induct)
  case Nil
  then have "as = []" by (cases as) auto
  then show ?case
    by (subst filter_store.simps) (simp add: unchanged_refl filter_post_def)
next
  case (Node k t tv h cs nodes)
  from Node.prems(1) obtain a rest where as: "as = a # rest"
    and ra: "rep S st a (Node k t tv h cs)" and rrest: "reps S st rest nodes"
    using reps_Cons_right by blast
  from ra have alen: "a < length st"
    and ob: "o_type (st ! a) = t" "o_hasChildNodes (st ! a) = h"
    and obk: "o_key (st ! a) = k" "o_textValue (st ! a) = tv"
    and rcs: "reps S st (o_childNodes (st ! a)) cs"
    by auto
  from Node.prems(3) ra have fo: "fo (st ! a) = f (Node k t tv h cs)"
    by (simp add: agree_def)
  note S = Node.prems(2)
  have rest_step: "\<exists>st' out. filter_store stx rest fo = Some (st', out) \<and>
       filter_post S stx rest (filter_nodes nodes f) st' out"
    if u: "unchanged st stx" for stx
  proof (rule Node.IH(2))
    show "reps S stx rest nodes" using rrest S u by (simp add: rep_unchanged(2))
    show "S \<subseteq> {..<length stx}" using S u by (auto simp: unchanged_def)
    show "agree S stx fo f" using Node.prems(3) S u by (rule agree_unchanged)
  qed
  show ?case
  proof (cases "t = ''section'' \<and> h")
    case sec: True
    let ?copy = "length st"
    let ?st1 = "st @ [st ! a]"
    have u1: "unchanged st ?st1" by (rule unchanged_append)
    have "\<exists>st2 filtered. filter_store ?st1 (o_childNodes (st ! a)) fo = Some (st2, filtered) \<and>
        filter_post S ?st1 (o_childNodes (st ! a)) (filter_nodes cs f) st2 filtered"
    proof (rule Node.IH(1))
      show "reps S ?st1 (o_childNodes (st ! a)) cs" using rcs S u1 by (simp add: rep_unchanged(2))
      show "S \<subseteq> {..<length ?st1}" using S by auto
      show "agree S ?st1 fo f" using Node.prems(3) S u1 by (rule agree_unchanged)
    qed
    then obtain st2 filtered where
      f1: "filter_store ?st1 (o_childNodes (st ! a)) fo = Some (st2, filtered)"
      and u2: "unchanged ?st1 st2"
      and r2: "reps (S \<union> {length ?st1..<length st2}) st2 filtered (filter_nodes cs f)"
      by (auto simp: filter_post_def)
    have u02: "unchanged st st2" using u1 u2 by (rule unchanged_trans)
    have len2: "length st < length st2" using u2 by (simp add: unchanged_def)
    have copy2: "st2 ! ?copy = st ! a" using u2 by (simp add: unchanged_def nth_append)
    have lenf: "length filtered = length (filter_nodes cs f)" using r2 by (rule reps_length)
    show ?thesis
    proof (cases "filter_nodes cs f = []")
      case True
      with lenf have fe: "filtered = []" by simp
      from rest_step [OF u02] obtain st' out where
        f2: "filter_store st2 rest fo = Some (st', out)"
        and p2: "filter_post S st2 rest (filter_nodes nodes f) st' out"
        by blast
      have "filter_store st as fo = Some (st', out)"
        using alen sec ob f1 fe f2 unfolding as
        by (subst filter_store.simps) (simp add: Let_def)
      moreover have "filter_post S st as (filter_nodes (Node k t tv h cs # nodes) f) st' out"
        using post_skip [OF u02 p2, of a] sec True by (simp add: as Let_def)
      ultimately show ?thesis by blast
    next
      case False
      with lenf have fne: "0 < length filtered" by simp
      let ?st3 = "st2[?copy := (st2 ! ?copy)\<lparr>o_childNodes := filtered\<rparr>]"
      let ?n = "Node k t tv h (filter_nodes cs f)"
      have u03: "unchanged st ?st3" using u02 by (simp add: unchanged_update)
      have len3: "length st < length ?st3" using len2 by simp
      from rest_step [OF u03] obtain st' out where
        f3: "filter_store ?st3 rest fo = Some (st', out)"
        and p3: "filter_post S ?st3 rest (filter_nodes nodes f) st' out"
        by blast
      have "reps (S \<union> {length ?st1..<length st2}) ?st3 filtered (filter_nodes cs f)"
        using r2 by (rule rep_frame(2)) (use S in auto)
      then have "reps (S \<union> {length st..<length ?st3}) ?st3 filtered (filter_nodes cs f)"
        by (rule rep_mono(2)) auto
      then have rc: "rep (S \<union> {length st..<length ?st3}) ?st3 ?copy ?n"
        using len2 copy2 ob obk by simp
      have "filter_store st as fo = Some (st', ?copy # out)"
        using alen sec ob f1 fne f3 unfolding as
        by (subst filter_store.simps) (simp add: Let_def)
      moreover have "filter_post S st as (filter_nodes (Node k t tv h cs # nodes) f) st' (?copy # out)"
        using post_keep_copy [OF u03 len3 S p3 rc, of a] sec False by (simp add: as Let_def)
      ultimately show ?thesis by blast
    qed
  next
    case nsec: False
    from rest_step [OF unchanged_refl] obtain st' out where
      f2: "filter_store st rest fo = Some (st', out)"
      and p2: "filter_post S st rest (filter_nodes nodes f) st' out"
      by blast
    show ?thesis
    proof (cases "t \<noteq> ''section'' \<and> f (Node k t tv h cs)")
      case True
      have "filter_store st as fo = Some (st', a # out)"
        using alen nsec True ob fo f2 unfolding as
        by (subst filter_store.simps) (simp add: Let_def)
      moreover have "filter_post S st as (filter_nodes (Node k t tv h cs # nodes) f) st' (a # out)"
        using post_keep_item [OF p2 ra S] nsec True by (simp add: as Let_def)
      ultimately show ?thesis by blast
    next
      case False
      have "filter_store st as fo = Some (st', out)"
        using alen nsec False ob fo f2 unfolding as
        by (subst filter_store.simps) (auto simp add: Let_def)
      moreover have "filter_post S st as (filter_nodes (Node k t tv h cs # nodes) f) st' out"
        using post_skip [OF unchanged_refl p2, of a] nsec False by (auto simp add: as Let_def)
      ultimately show ?thesis by blast
    qed
  qed
qed

text \<open>
  Claim C4. In the tree that the filter returns, every item node satisfies the predicate and
  is a node of the source tree, unchanged; every section has the flag and a child list that
  is not empty, and is the copy of a section of the source tree that carries the filtered
  children of that section, so that a section whose filtered children are empty is not in
  the result. On a store of objects that represents the source tree the filter returns, it
  leaves every object of the source at its address and as it was, the addresses it returns
  represent the filtered tree, and among them a section is a new object and an item is the
  object of the source.
\<close>

theorem filter_structure:
  "(\<forall>n \<in> set (nodes_of (filter_nodes nodes f)).
      (node_type n \<noteq> ''section'' \<longrightarrow> f n \<and> n \<in> set (nodes_of nodes)) \<and>
      (node_type n = ''section'' \<longrightarrow>
         hasChildNodes n \<and> childNodes n \<noteq> [] \<and>
         (\<exists>m \<in> set (nodes_of nodes). node_type m = ''section'' \<and> hasChildNodes m \<and>
            filter_nodes (childNodes m) f \<noteq> [] \<and>
            n = copy_with_childNodes m (filter_nodes (childNodes m) f))))
   \<and> (reps {..<length st} st as nodes \<and> agree {..<length st} st fo f \<longrightarrow>
        (\<exists>st' out. filter_store st as fo = Some (st', out) \<and>
           length st \<le> length st' \<and> (\<forall>b<length st. st' ! b = st ! b) \<and>
           reps {..<length st'} st' out (filter_nodes nodes f) \<and>
           (\<forall>r\<in>set out. if o_type (st' ! r) = ''section'' then length st \<le> r else r \<in> set as)))"
proof (intro conjI impI)
  show "\<forall>n \<in> set (nodes_of (filter_nodes nodes f)).
      (node_type n \<noteq> ''section'' \<longrightarrow> f n \<and> n \<in> set (nodes_of nodes)) \<and>
      (node_type n = ''section'' \<longrightarrow>
         hasChildNodes n \<and> childNodes n \<noteq> [] \<and>
         (\<exists>m \<in> set (nodes_of nodes). node_type m = ''section'' \<and> hasChildNodes m \<and>
            filter_nodes (childNodes m) f \<noteq> [] \<and>
            n = copy_with_childNodes m (filter_nodes (childNodes m) f)))"
    using filter_nodes_item [of _ nodes f] filter_nodes_section [of _ nodes f] by blast
next
  assume a: "reps {..<length st} st as nodes \<and> agree {..<length st} st fo f"
  then obtain st' out where r: "filter_store st as fo = Some (st', out)"
    and p: "filter_post {..<length st} st as (filter_nodes nodes f) st' out"
    using filter_store_refines [of "{..<length st}" st as nodes fo f] by auto
  from p have l: "length st \<le> length st'" by (simp add: filter_post_def unchanged_def)
  then have "{..<length st} \<union> {length st..<length st'} = {..<length st'}" by auto
  with p have "reps {..<length st'} st' out (filter_nodes nodes f)"
    by (simp add: filter_post_def)
  with r p l show "\<exists>st' out. filter_store st as fo = Some (st', out) \<and>
           length st \<le> length st' \<and> (\<forall>b<length st. st' ! b = st ! b) \<and>
           reps {..<length st'} st' out (filter_nodes nodes f) \<and>
           (\<forall>r\<in>set out. if o_type (st' ! r) = ''section'' then length st \<le> r else r \<in> set as)"
    by (auto simp: filter_post_def unchanged_def)
qed

theorem filter_structure_witness:
  "item_node (Str ''a'') ''Apple'' \<in>
     set (nodes_of (filter_nodes fruit_nodes (\<lambda>n. textValue n = ''Apple'')))
   \<and> filter_nodes fruit_nodes (\<lambda>n. textValue n = ''Apple'') =
       [section_node (Str ''fruit'') ''Fruit'' [item_node (Str ''a'') ''Apple'']]
   \<and> reps {..<length fruit_store} fruit_store [2, 3] fruit_nodes
   \<and> agree {..<length fruit_store} fruit_store
        (\<lambda>ob. o_textValue ob = ''Apple'') (\<lambda>n. textValue n = ''Apple'')
   \<and> (\<exists>st' out. filter_store fruit_store [2, 3] (\<lambda>ob. o_textValue ob = ''Apple'') = Some (st', out) \<and>
         (\<forall>b<length fruit_store. st' ! b = fruit_store ! b) \<and>
         reps {..<length st'} st' out
           [section_node (Str ''fruit'') ''Fruit'' [item_node (Str ''a'') ''Apple'']])"
proof -
  let ?f = "\<lambda>n. textValue n = ''Apple''"
  let ?fo = "\<lambda>ob. o_textValue ob = ''Apple''"
  have v: "filter_nodes fruit_nodes ?f =
      [section_node (Str ''fruit'') ''Fruit'' [item_node (Str ''a'') ''Apple'']]"
    by (simp add: fruit_nodes_def item_node_def section_node_def)
  have m: "item_node (Str ''a'') ''Apple'' \<in> set (nodes_of (filter_nodes fruit_nodes ?f))"
    by (simp add: v) (simp add: item_node_def section_node_def)
  have h1: "reps {..<length fruit_store} fruit_store [2, 3] fruit_nodes"
    by (simp add: fruit_nodes_def fruit_store_def item_node_def section_node_def)
  have h2: "agree {..<length fruit_store} fruit_store ?fo ?f"
    by (rule agree_textValue [of _ _ "\<lambda>t. t = ''Apple''"])
  from filter_structure [of fruit_nodes ?f fruit_store "[2, 3]" ?fo] h1 h2
  have "\<exists>st' out. filter_store fruit_store [2, 3] ?fo = Some (st', out) \<and>
           length fruit_store \<le> length st' \<and> (\<forall>b<length fruit_store. st' ! b = fruit_store ! b) \<and>
           reps {..<length st'} st' out (filter_nodes fruit_nodes ?f) \<and>
           (\<forall>r\<in>set out. if o_type (st' ! r) = ''section'' then length fruit_store \<le> r
                          else r \<in> set [2, 3])"
    by blast
  then have "\<exists>st' out. filter_store fruit_store [2, 3] ?fo = Some (st', out) \<and>
         (\<forall>b<length fruit_store. st' ! b = fruit_store ! b) \<and>
         reps {..<length st'} st' out
           [section_node (Str ''fruit'') ''Fruit'' [item_node (Str ''a'') ''Apple'']]"
    unfolding v by blast
  with m v h1 h2 show ?thesis by blast
qed

text \<open>The run of the store filter on that input: the copy of the section is the new object
  at address 4 with the one child that is left, and the four objects of the source are as
  they were.\<close>

lemma filter_store_fruit:
  "filter_store fruit_store [2, 3] (\<lambda>ob. o_textValue ob = ''Apple'') =
     Some (fruit_store @
             [\<lparr>o_key = Str ''fruit'', o_type = ''section'', o_textValue = ''Fruit'',
               o_hasChildNodes = True, o_childNodes = [0]\<rparr>],
           [4])"
  by (simp add: filter_store.simps fruit_store_def)

text \<open>
  Claim C10, as amended. Filtering with the predicate that is always true returns the source
  tree itself, and so the same keys in the same order, when every section of the tree, at
  every level, is flagged as having children and has at least one child; and for no other
  tree are the keys of the result those of the source.
\<close>

theorem filter_true_keys:
  "sections_nonempty nodes \<longleftrightarrow> keys_of (filter_nodes nodes (\<lambda>n. True)) = keys_of nodes"
proof
  assume "sections_nonempty nodes"
  then show "keys_of (filter_nodes nodes (\<lambda>n. True)) = keys_of nodes"
    by (simp add: filter_true_id)
next
  assume "keys_of (filter_nodes nodes (\<lambda>n. True)) = keys_of nodes"
  then have "length (nodes_of (filter_nodes nodes (\<lambda>n. True))) = length (nodes_of nodes)"
    unfolding keys_of_def by (metis length_map)
  then show "sections_nonempty nodes" by (rule filter_true_len)
qed

theorem filter_true_keys_witness:
  "sections_nonempty fruit_nodes
   \<and> keys_of (filter_nodes fruit_nodes (\<lambda>n. True)) = [Str ''fruit'', Str ''a'', Str ''b'', Str ''c'']
   \<and> keys_of fruit_nodes = [Str ''fruit'', Str ''a'', Str ''b'', Str ''c'']"
  using filter_true_keys [of fruit_nodes]
  by (simp add: fruit_nodes_def item_node_def section_node_def keys_of_def)

text \<open>A section without children is dropped though the predicate is always true.\<close>

theorem filter_true_keys_counterexample:
  "keys_of [section_node (Str ''s'') ''Empty'' [], item_node (Str ''c'') ''Carrot''] = [Str ''s'', Str ''c'']
   \<and> keys_of (filter_nodes [section_node (Str ''s'') ''Empty'' [], item_node (Str ''c'') ''Carrot'']
        (\<lambda>n. True)) = [Str ''c'']"
  by (simp add: item_node_def section_node_def keys_of_def)

section \<open>The default filter predicate: properties\<close>

text \<open>
  The loop returns true exactly when the query compares equal to a substring, as long as
  the query, of the item text that the source has normalized, at or after the position of
  \<open>scan\<close>. So the predicate holds exactly when there is such a substring, and a query
  that is empty after normalization matches every item when the collator takes the empty
  text as equal to itself.
\<close>

lemma defaultFilterFn_loop_iff:
  "defaultFilterFn_loop coll lv ln scan match \<longleftrightarrow>
     match \<or> (\<exists>i\<ge>scan. i + length lv \<le> length ln \<and> coll lv (slice ln i (i + length lv)) = 0)"
proof (induction coll lv ln scan match rule: defaultFilterFn_loop.induct)
  case (1 coll lv ln scan match)
  show ?case
  proof (cases "scan + length lv \<le> length ln \<and> \<not> match")
    case True
    have "(\<exists>i\<ge>scan. i + length lv \<le> length ln \<and> coll lv (slice ln i (i + length lv)) = 0)
       \<longleftrightarrow> coll lv (slice ln scan (scan + length lv)) = 0 \<or>
           (\<exists>i\<ge>scan + 1. i + length lv \<le> length ln \<and> coll lv (slice ln i (i + length lv)) = 0)"
      (is "?L \<longleftrightarrow> ?A \<or> ?R")
    proof
      assume ?L
      then obtain i where i: "i \<ge> scan" "i + length lv \<le> length ln" "coll lv (slice ln i (i + length lv)) = 0"
        by blast
      show "?A \<or> ?R"
      proof (cases "i = scan")
        case True with i show ?thesis by simp
      next
        case False with i have "i \<ge> scan + 1" by simp
        with i show ?thesis by blast
      qed
    next
      assume "?A \<or> ?R"
      with True show ?L by (metis Suc_eq_plus1 Suc_leD le_refl)
    qed
    with True 1 show ?thesis
      by (subst defaultFilterFn_loop.simps) (auto simp: Let_def)
  next
    case False
    then show ?thesis
      by (subst defaultFilterFn_loop.simps) (auto simp: Let_def)
  qed
qed

lemma defaultFilterFn_iff:
  "defaultFilterFn toLowerCase coll lowerVal node \<longleftrightarrow>
     (\<exists>i. i + length lowerVal \<le> length (replace_first CHR '' '' [] (toLowerCase (textValue node))) \<and>
          coll lowerVal (slice (replace_first CHR '' '' [] (toLowerCase (textValue node))) i
                           (i + length lowerVal)) = 0)"
  by (simp add: defaultFilterFn_def defaultFilterFn_loop_iff Let_def)

lemma defaultFilterFn_empty_query:
  "coll [] [] = 0 \<Longrightarrow> defaultFilterFn toLowerCase coll [] node"
  by (auto simp add: defaultFilterFn_iff slice_def intro: exI [of _ 0])

text \<open>The comparison by code units is zero for equal texts only.\<close>

lemma codeunit_compare_eq: "codeunit_compare a b = 0 \<longleftrightarrow> a = b"
  by (induction a b rule: codeunit_compare.induct) auto

text \<open>
  Claim C5. The default predicate removes only the first space of the item text and of the
  query. For the item text \<open>a b c\<close> and the query \<open>abc\<close> it compares the query with the
  substrings of \<open>ab c\<close> and finds no match, while the predicate of the specification, which
  frees both texts of every space, matches.
\<close>

theorem defaultFilterFn_first_space_only:
  "defaultFilterFn ascii_toLowerCase codeunit_compare
      (lowercaseValue ascii_toLowerCase ''abc'') (item_node (Str ''k'') ''a b c'') = False
   \<and> spec_defaultFilter ascii_toLowerCase codeunit_compare ''abc'' (item_node (Str ''k'') ''a b c'') = True"
  by code_simp

section \<open>Opening the popup: properties\<close>

text \<open>
  Claim C6, as amended. \<open>open\<close> is forwarded to the trigger state when the filtered
  collection has a size greater than zero, and otherwise has no effect and leaves the
  trigger state as it is; \<open>setOpen(false)\<close> is always forwarded and closes the trigger
  state. The open flag of the returned state is true only when the trigger state is open,
  the input has the focus and the filtered collection is not empty; so whatever request is
  made on an empty filtered collection, the returned state is not open.
\<close>

theorem open_gate:
  "(size_of fc = 0 \<longrightarrow> state_open fc fs = [] \<and> foldl trigger_apply t (request_effects fc (Open fs)) = t)
   \<and> (size_of fc > 0 \<longrightarrow> state_open fc fs = [TriggerOpen fs] \<and> foldl trigger_apply t (request_effects fc (Open fs)) = True)
   \<and> state_setOpen False = [TriggerSetOpen False]
   \<and> foldl trigger_apply t (request_effects fc (SetOpen False)) = False
   \<and> (state_isOpen t f fc \<longrightarrow> t \<and> f \<and> size_of fc > 0)
   \<and> (size_of fc = 0 \<longrightarrow> \<not> state_isOpen (foldl trigger_apply t (request_effects fc req)) f fc)"
  by (simp add: state_open_def state_setOpen_def state_isOpen_def)

theorem open_gate_witness:
  "size_of (ListCollection []) = 0 \<and> state_open (ListCollection []) None = []
   \<and> 0 < size_of (ListCollection fruit_nodes)
   \<and> state_open (ListCollection fruit_nodes) (Some ''first'') = [TriggerOpen (Some ''first'')]
   \<and> state_isOpen True True (ListCollection fruit_nodes)
   \<and> \<not> state_isOpen (foldl trigger_apply False (request_effects (ListCollection []) (SetOpen True))) True (ListCollection [])"
  using open_gate [of "ListCollection []" None False True "SetOpen True"]
    open_gate [of "ListCollection fruit_nodes" "Some ''first''" True True "SetOpen True"]
  by (simp add: size_of_def ListCollection_def fruit_nodes_def item_node_def section_node_def state_isOpen_def)

text \<open>On an empty filtered collection \<open>setOpen(true)\<close> and \<open>toggle\<close> reach the trigger
  state and open it, and \<open>toggle\<close> reaches an open trigger state and closes it.\<close>

theorem open_gate_counterexample:
  "size_of (ListCollection []) = 0
   \<and> request_effects (ListCollection []) (SetOpen True) = [TriggerSetOpen True]
   \<and> foldl trigger_apply False (request_effects (ListCollection []) (SetOpen True)) = True
   \<and> request_effects (ListCollection []) Toggle = [TriggerToggle]
   \<and> foldl trigger_apply False (request_effects (ListCollection []) Toggle) = True
   \<and> request_effects (ListCollection fruit_nodes) Toggle = [TriggerToggle]
   \<and> foldl trigger_apply True (request_effects (ListCollection fruit_nodes) Toggle) = False"
  by (simp add: size_of_def ListCollection_def state_setOpen_def state_toggle_def)

text \<open>
  Claim C9, as amended. \<open>open\<close> never notifies a change of the filter, whether the open is
  forwarded or not. The change of the filter is notified by the effect on the input value,
  exactly when the host listens and the input value differs from the last one seen, and
  the value passed is the input value.
\<close>

theorem open_no_filter_notification:
  "(\<forall>v. OnFilter v \<notin> set (state_open fc fs))
   \<and> (\<forall>v. OnFilter v \<in> set (fst (onFilter_effect p lastValue inputVal)) \<longleftrightarrow>
          onFilter p \<and> lastValue \<noteq> inputVal \<and> v = Some inputVal)
   \<and> snd (onFilter_effect p lastValue inputVal) = inputVal"
  by (auto simp: state_open_def onFilter_effect_def)

theorem open_no_filter_notification_witness:
  "onFilter (plain_props\<lparr>onFilter := True\<rparr>) \<and> '''' \<noteq> ''a''
   \<and> OnFilter (Some ''a'') \<in> set (fst (onFilter_effect (plain_props\<lparr>onFilter := True\<rparr>) '''' ''a''))
   \<and> OnFilter (Some ''a'') \<notin> set (state_open (ListCollection fruit_nodes) None)"
  using open_no_filter_notification [of "ListCollection fruit_nodes" None "plain_props\<lparr>onFilter := True\<rparr>" "''''" "''a''"]
  by (simp add: plain_props_def)

text \<open>\<open>open\<close> on a collection with nodes and on an empty one: no notification of the
  filter with an undefined value.\<close>

theorem open_no_filter_notification_counterexample:
  "OnFilter None \<notin> set (state_open (ListCollection fruit_nodes) None)
   \<and> OnFilter None \<notin> set (state_open (ListCollection []) None)
   \<and> state_open (ListCollection fruit_nodes) None = [TriggerOpen None]
   \<and> state_open (ListCollection []) None = []"
  by (simp add: state_open_def size_of_def ListCollection_def fruit_nodes_def item_node_def section_node_def)

section \<open>The suggested value: properties\<close>

lemma suggested_loop_find:
  "inputVal \<noteq> [] \<Longrightarrow> coll inputVal [] \<noteq> 0 \<Longrightarrow>
     suggested_loop coll inputVal vs = find (prefix_matches coll inputVal) vs"
  by (induction vs) (auto simp: prefix_matches_def slice_def)

lemma find_map_textValue:
  "find P (map textValue ns) = map_option textValue (find (\<lambda>n. P (textValue n)) ns)"
  by (induction ns) auto

text \<open>
  What the body computes when the focused key is undefined, null or truthy, the filtered
  collection is iterated as a list of items without sections, and the input, when it is
  not empty, does not compare equal to the empty text: nothing when the input is empty or
  custom values are allowed; otherwise the text of the focused item when its prefix, as
  long as the input, compares equal to the input; otherwise the text of the first item of
  the list whose prefix of that length does, and nothing when there is none.
\<close>

lemma suggestedValue_computed:
  assumes "collator p inputVal [] \<noteq> 0 \<or> inputVal = []"
    and "truthy focusedKey \<or> focusedKey = Undefined \<or> focusedKey = Null"
    and "\<forall>n\<in>set (iterable fc). node_type n \<noteq> ''section''"
  shows "suggestedValue p fc inputVal focusedKey =
     (if inputVal = [] \<or> allowsCustomValue p then None
      else case getItem fc focusedKey of
             Some n \<Rightarrow>
               if prefix_matches (collator p) inputVal (textValue n) then Some (textValue n)
               else map_option textValue
                      (find (\<lambda>n. prefix_matches (collator p) inputVal (textValue n)) (iterable fc))
           | None \<Rightarrow>
               map_option textValue
                 (find (\<lambda>n. prefix_matches (collator p) inputVal (textValue n)) (iterable fc)))"
proof (cases "inputVal = [] \<or> allowsCustomValue p")
  case True
  then show ?thesis by (auto simp: suggestedValue_def)
next
  case False
  with assms(1) have ne: "inputVal \<noteq> []" and sane: "collator p inputVal [] \<noteq> 0" by auto
  have loop: "suggested_loop (collator p) inputVal (filteredTextValues fc) =
      map_option textValue (find (\<lambda>n. prefix_matches (collator p) inputVal (textValue n)) (iterable fc))"
    using suggested_loop_find [of inputVal "collator p" "filteredTextValues fc"] ne sane
    by (simp add: filteredTextValues_def find_map_textValue)
  have pm: "prefix_matches (collator p) inputVal t \<Longrightarrow> t \<noteq> []" for t
    using sane by (auto simp: prefix_matches_def)
  show ?thesis
  proof (cases "truthy focusedKey")
    case True
    with False ne sane loop show ?thesis
      by (auto simp: suggestedValue_def Let_def slice_def prefix_matches_def split: option.splits)
  next
    case nt: False
    with assms(2) have "getItem fc focusedKey = None" by auto
    with nt False loop show ?thesis
      by (auto simp: suggestedValue_def Let_def)
  qed
qed

text \<open>
  Claim C7. The focused item is to have priority, and the comment in the source keeps the
  scan of the list for the case that the focused key does not exist or does not match. The
  test \<open>if (focusedKey)\<close> is one of truthiness: the focused item \<open>Item One\<close> with the key
  \<open>0\<close> exists and its prefix matches the input \<open>It\<close>, yet the suggestion is \<open>ItemOne\<close>,
  the first match of the list; with the key \<open>1\<close> focused on \<open>ItemOne\<close>, second in the
  list, the focused item wins as the claim says. The scan also runs over what iterating
  the filtered collection yields, which for a collection with a section is the section and
  not its items: for the input \<open>Ap\<close> the item \<open>Apple\<close> of the section is not suggested,
  and for the input \<open>Fr\<close> the title \<open>Fruit\<close> of the section is.
\<close>

theorem suggestedValue_focused_key_zero:
  "getItem (ListCollection item_nodes) (Defined (Num 0)) = Some (item_node (Num 0) ''Item One'')
   \<and> prefix_matches codeunit_compare ''It'' ''Item One''
   \<and> suggestedValue plain_props (ListCollection item_nodes) ''It'' (Defined (Num 0)) = Some ''ItemOne''
   \<and> getItem (ListCollection (rev item_nodes)) (Defined (Num 1)) = Some (item_node (Num 1) ''ItemOne'')
   \<and> suggestedValue plain_props (ListCollection (rev item_nodes)) ''It'' (Defined (Num 1)) = Some ''ItemOne''
   \<and> suggestedValue plain_props (ListCollection (rev item_nodes)) ''It'' Undefined = Some ''Item One''
   \<and> prefix_matches codeunit_compare ''Ap'' ''Apple''
   \<and> suggestedValue plain_props (ListCollection fruit_nodes) ''Ap'' Undefined = None
   \<and> suggestedValue plain_props (ListCollection fruit_nodes) ''Fr'' Undefined = Some ''Fruit''"
  by (simp add: suggestedValue_def ListCollection_def item_nodes_def fruit_nodes_def item_node_def
      section_node_def plain_props_def prefix_matches_def filteredTextValues_def slice_def)

text \<open>
  The suggestion of a render is the computed one when there is no previous render or a
  dependency changed. The flag for custom values is not a dependency: when it alone
  changes, the suggestion of the previous render stays.
\<close>

lemma suggestedValue_memo_fresh:
  "previous = None \<or> fst (the previous) \<noteq> (collator p, filteredTextValues fc, inputVal, focusedKey) \<Longrightarrow>
     suggestedValue_memo previous p fc inputVal focusedKey = suggestedValue p fc inputVal focusedKey"
  by (auto simp: suggestedValue_memo_def useMemo_def split: option.splits)

lemma suggestedValue_memo_stale:
  "suggestedValue plain_props (ListCollection item_nodes) ''It'' Undefined = Some ''ItemOne''
   \<and> suggestedValue (plain_props\<lparr>allowsCustomValue := True\<rparr>) (ListCollection item_nodes) ''It'' Undefined = None
   \<and> suggestedValue_memo
        (Some ((codeunit_compare, filteredTextValues (ListCollection item_nodes), ''It'', Undefined),
               Some ''ItemOne''))
        (plain_props\<lparr>allowsCustomValue := True\<rparr>) (ListCollection item_nodes) ''It'' Undefined
      = Some ''ItemOne''"
  by (simp add: suggestedValue_memo_def useMemo_def suggestedValue_def ListCollection_def
      item_nodes_def item_node_def plain_props_def filteredTextValues_def slice_def)

end
